theory Spec2Isabelle
  imports Complex_Main "HOL-Library.Word"
begin

section \<open>Strings and array helpers of the host language\<close>

text \<open>
  A JavaScript string is a sequence of UTF-16 code units and \<open>.length\<close> counts
  code units, so a string is a list of 16-bit words and its length is the list's length.
\<close>

type_synonym jschar = "16 word"
type_synonym jsstring = "jschar list"

definition SPACE :: jsstring where
  "SPACE = [0x20]"

text \<open>The separators \<open>" \<emdash> "\<close> (U+2014), \<open>" \<bullet> "\<close> (U+2022) and the ellipsis (U+2026).\<close>

definition DASH_SEP :: jsstring where
  "DASH_SEP = [0x20, 0x2014, 0x20]"

definition BULLET_SEP :: jsstring where
  "BULLET_SEP = [0x20, 0x2022, 0x20]"

definition ELLIPSIS :: jsstring where
  "ELLIPSIS = [0x2026]"

text \<open>
  The code units that \<open>String.prototype.trim\<close> strips: ECMAScript's WhiteSpace
  (TAB, VT, FF, SP, NBSP, ZWNBSP and the space separators) and LineTerminator
  (LF, CR, LS, PS).
\<close>

definition isWhiteSpace :: "jschar \<Rightarrow> bool" where
  "isWhiteSpace c \<longleftrightarrow>
     c \<in> set [0x09, 0x0A, 0x0B, 0x0C, 0x0D, 0x20, 0xA0, 0x1680,
              0x2000, 0x2001, 0x2002, 0x2003, 0x2004, 0x2005, 0x2006, 0x2007,
              0x2008, 0x2009, 0x200A, 0x2028, 0x2029, 0x202F, 0x205F, 0x3000, 0xFEFF]"

definition trim :: "jsstring \<Rightarrow> jsstring" where
  "trim s = rev (dropWhile isWhiteSpace (rev (dropWhile isWhiteSpace s)))"

text \<open>\<open>Array.prototype.join(sep)\<close> on an array of strings.\<close>

fun join :: "jsstring \<Rightarrow> jsstring list \<Rightarrow> jsstring" where
  "join sep [] = []"
| "join sep [x] = x"
| "join sep (x # y # ys) = x @ sep @ join sep (y # ys)"

text \<open>\<open>s || ""\<close> and \<open>arr || []\<close> (also \<open>Array.isArray(arr) ? arr : []\<close>) on an optional field.\<close>

definition orEmpty :: "jsstring option \<Rightarrow> jsstring" where
  "orEmpty s = (case s of None \<Rightarrow> [] | Some x \<Rightarrow> x)"

definition orNil :: "'a list option \<Rightarrow> 'a list" where
  "orNil arr = (case arr of None \<Rightarrow> [] | Some xs \<Rightarrow> xs)"

text \<open>\<open>.filter(Boolean)\<close> on strings keeps the non-empty ones.\<close>

definition filterBoolean :: "jsstring list \<Rightarrow> jsstring list" where
  "filterBoolean xs = filter (\<lambda>s. s \<noteq> []) xs"

text \<open>
  \<open>Array.from(new Set(xs))\<close>: the elements are added in order, an element already
  present is skipped, and the Set iterates in insertion order.
\<close>

definition setAdd :: "'a list \<Rightarrow> 'a \<Rightarrow> 'a list" where
  "setAdd seen x = (if x \<in> set seen then seen else seen @ [x])"

definition arrayFromSet :: "'a list \<Rightarrow> 'a list" where
  "arrayFromSet xs = foldl setAdd [] xs"

definition clamp :: "real \<Rightarrow> real \<Rightarrow> real \<Rightarrow> real" where
  "clamp v a b = max a (min b v)"

definition uniqStrings :: "jsstring list option \<Rightarrow> jsstring list" where
  "uniqStrings arr = arrayFromSet (filterBoolean (map trim (orNil arr)))"

section \<open>The data model\<close>

text \<open>
  The types of \<open>types/resume.ts\<close> and of the preprocessing module. Record fields share
  one name space, so the fields of a certification and of a volunteer entry carry the
  prefixes \<open>cert_\<close> and \<open>vol_\<close>, and \<open>name\<close> and \<open>duration\<close> of the section
  font sizes are \<open>fs_name\<close> and \<open>fs_duration\<close>; the property \<open>_layout\<close> is
  \<open>layout\<close>. An optional property is an \<open>option\<close>.
\<close>

record Contact =
  phone :: "jsstring option"
  email :: "jsstring option"
  address :: "jsstring option"
  linkedin :: "jsstring option"

record Experience =
  role :: jsstring
  company :: jsstring
  duration :: jsstring
  description :: "jsstring list"

record Education =
  degree :: jsstring
  school :: jsstring
  year :: jsstring

record Certification =
  cert_name :: jsstring
  cert_year :: "jsstring option"

record Volunteer =
  vol_role :: jsstring
  vol_org :: jsstring
  vol_duration :: "jsstring option"
  vol_description :: "jsstring list"

text \<open>
  \<open>ResumeData\<close>. Every top-level field is optional here: the function guards each of
  them (\<open>data.name || ""\<close>, \<open>Array.isArray(data.experience) ? ... : []\<close>), and
  \<open>None\<close> stands for an absent (or null) property.
\<close>

record ResumeData =
  name :: "jsstring option"
  title :: "jsstring option"
  photoUrl :: "jsstring option"
  contact :: "Contact option"
  summary :: "jsstring option"
  experience :: "Experience list option"
  education :: "Education list option"
  certifications :: "Certification list option"
  achivements :: "jsstring list option"
  volunteer :: "Volunteer list option"
  skills :: "jsstring list option"
  softSkills :: "jsstring list option"
  languages :: "jsstring list option"
  interests :: "jsstring list option"

record SectionFontSizes =
  fs_name :: real
  sectionTitle :: real
  body :: real
  sidebarTitle :: real
  sidebarBody :: real
  fs_duration :: real

record LayoutHints =
  compactMode :: bool
  nameFontSize :: real
  maxExperienceItems :: nat
  maxBulletsPerExp :: nat
  maxEducationItems :: nat
  truncateCharPerLine :: nat
  sectionFontSizes :: SectionFontSizes
  sidebarWidthPx :: nat

text \<open>\<open>ProcessedResume = ResumeData & { _layout?: LayoutHints }\<close>.\<close>

record ProcessedResume = ResumeData +
  layout :: "LayoutHints option"

section \<open>The density measure (lines 208 to 232)\<close>

definition joinExpText :: "Experience list option \<Rightarrow> jsstring" where
  "joinExpText exps =
     join SPACE (map (\<lambda>e. role e @ SPACE @ company e @ SPACE @ duration e @ SPACE
                           @ join SPACE (description e)) (orNil exps))"

definition joinEduText :: "Education list option \<Rightarrow> jsstring" where
  "joinEduText edu =
     join SPACE (map (\<lambda>e. degree e @ SPACE @ school e @ SPACE @ year e) (orNil edu))"

definition joinSimple :: "jsstring list option \<Rightarrow> jsstring" where
  "joinSimple arr = join SPACE (orNil arr)"

definition nameLen :: "'a ResumeData_scheme \<Rightarrow> nat" where
  "nameLen data = length (orEmpty (name data))"

definition titleLen :: "'a ResumeData_scheme \<Rightarrow> nat" where
  "titleLen data = length (orEmpty (title data))"

definition summaryLen :: "'a ResumeData_scheme \<Rightarrow> nat" where
  "summaryLen data = length (orEmpty (summary data))"

definition expLen :: "'a ResumeData_scheme \<Rightarrow> nat" where
  "expLen data = length (joinExpText (experience data))"

definition eduLen :: "'a ResumeData_scheme \<Rightarrow> nat" where
  "eduLen data = length (joinEduText (education data))"

definition skillsLen :: "'a ResumeData_scheme \<Rightarrow> nat" where
  "skillsLen data = length (joinSimple (skills data))"

definition softLen :: "'a ResumeData_scheme \<Rightarrow> nat" where
  "softLen data = length (joinSimple (softSkills data))"

definition achLen :: "'a ResumeData_scheme \<Rightarrow> nat" where
  "achLen data = length (joinSimple (achivements data))"

definition langsLen :: "'a ResumeData_scheme \<Rightarrow> nat" where
  "langsLen data = length (joinSimple (languages data))"

definition certLen :: "'a ResumeData_scheme \<Rightarrow> nat" where
  "certLen data =
     length (join SPACE (map (\<lambda>c. cert_name c @ orEmpty (cert_year c))
                             (orNil (certifications data))))"

definition volunteerLen :: "'a ResumeData_scheme \<Rightarrow> nat" where
  "volunteerLen data =
     length (join SPACE (map (\<lambda>v. vol_role v @ SPACE @ vol_org v @ SPACE
                                   @ join SPACE (vol_description v))
                             (orNil (volunteer data))))"

definition totalChars :: "'a ResumeData_scheme \<Rightarrow> nat" where
  "totalChars data =
     nameLen data + titleLen data + summaryLen data + expLen data + eduLen data
     + skillsLen data + softLen data + achLen data + langsLen data + certLen data
     + volunteerLen data"

section \<open>Layout hints (lines 234 to 274)\<close>

definition TARGET_CHARS :: nat where
  "TARGET_CHARS = 3600"

definition MEDIUM_CHARS :: nat where
  "MEDIUM_CHARS = 2200"

definition COMPACT_CHAR_THRESHOLD :: nat where
  "COMPACT_CHAR_THRESHOLD = 4200"

text \<open>
  JavaScript numbers are taken as real numbers: \<open>Math.pow(x, 0.5)\<close> is \<open>x powr 0.5\<close>
  and \<open>Math.round\<close> rounds to the nearest integer, a tie going up, which is
  \<^const>\<open>round\<close>. Each definition below is one local constant of the function, as a
  function of the locals it is computed from.
\<close>

definition compactMode_of :: "nat \<Rightarrow> bool" where
  "compactMode_of tchars \<longleftrightarrow> tchars > MEDIUM_CHARS"

definition rawScale_of :: "nat \<Rightarrow> real" where
  "rawScale_of tchars = real TARGET_CHARS / max 1 (real tchars)"

definition globalScale_of :: "nat \<Rightarrow> real" where
  "globalScale_of tchars = clamp (rawScale_of tchars powr 0.5) 0.7 1"

definition nameFontSize_of :: "nat \<Rightarrow> nat \<Rightarrow> real" where
  "nameFontSize_of tchars nlen =
     clamp (of_int (round (40 * globalScale_of tchars
                           - (if nlen > 24 then (real nlen - 24) * 0.25 else 0)))) 16 48"

definition sidebarPenalty_of :: "nat \<Rightarrow> real" where
  "sidebarPenalty_of tchars = (if tchars > COMPACT_CHAR_THRESHOLD then 0.88 else 1)"

definition sectionFontSizes_of :: "nat \<Rightarrow> nat \<Rightarrow> SectionFontSizes" where
  "sectionFontSizes_of tchars nlen =
     \<lparr> fs_name = nameFontSize_of tchars nlen,
       sectionTitle = clamp (of_int (round (14 * globalScale_of tchars))) 10 18,
       body = clamp (of_int (round (12 * globalScale_of tchars))) 9 14,
       sidebarTitle =
         clamp (of_int (round (12 * globalScale_of tchars * sidebarPenalty_of tchars))) 9 14,
       sidebarBody =
         clamp (of_int (round (11 * globalScale_of tchars * sidebarPenalty_of tchars))) 8 12,
       fs_duration = clamp (of_int (round (10 * globalScale_of tchars))) 8 12 \<rparr>"

definition maxExperienceItems_of :: "bool \<Rightarrow> nat" where
  "maxExperienceItems_of cm = (if cm then 3 else 6)"

definition maxBulletsPerExp_of :: "bool \<Rightarrow> nat" where
  "maxBulletsPerExp_of cm = (if cm then 2 else 4)"

definition maxEducationItems_of :: "bool \<Rightarrow> nat" where
  "maxEducationItems_of cm = (if cm then 2 else 6)"

definition truncateCharPerLine_of :: "bool \<Rightarrow> nat" where
  "truncateCharPerLine_of cm = (if cm then 120 else 220)"

definition achCap_of :: "bool \<Rightarrow> nat" where
  "achCap_of cm = (if cm then 6 else 12)"

section \<open>Overflow, trimming and normalisation (lines 276 to 318)\<close>

text \<open>The body of the first \<open>forEach\<close>: the condensed entry of an overflowing experience.\<close>

definition expEntry :: "nat \<Rightarrow> Experience \<Rightarrow> jsstring" where
  "expEntry maxB e =
     (let title = trim (role e @ DASH_SEP @ company e);
          bullets = map trim (take maxB (description e))
      in join BULLET_SEP (filterBoolean (title # bullets)))"

text \<open>The body of the second \<open>forEach\<close>: the condensed entry of an overflowing education.\<close>

definition eduEntry :: "Education \<Rightarrow> jsstring" where
  "eduEntry ed = trim (degree ed @ DASH_SEP @ school ed @ SPACE @ trim (year ed))"

text \<open>\<open>if (entry) extraAchievements.push(entry)\<close>.\<close>

definition pushEntry :: "jsstring list \<Rightarrow> jsstring \<Rightarrow> jsstring list" where
  "pushEntry acc entry = (if entry \<noteq> [] then acc @ [entry] else acc)"

text \<open>The truncation of one (already trimmed) bullet, line 305.\<close>

definition truncateBullet :: "nat \<Rightarrow> jsstring \<Rightarrow> jsstring" where
  "truncateBullet limit d =
     (if length d > limit then trim (take (limit - 1) d) @ ELLIPSIS else d)"

text \<open>The callback of \<open>data.experience.map\<close>, lines 303 to 306.\<close>

definition trimExperience :: "nat \<Rightarrow> nat \<Rightarrow> Experience \<Rightarrow> Experience" where
  "trimExperience maxB limit e =
     (let desc = map trim (take maxB (description e))
      in e\<lparr>description := map (truncateBullet limit) desc\<rparr>)"

definition normCertification :: "Certification \<Rightarrow> Certification" where
  "normCertification c =
     \<lparr> cert_name = trim (cert_name c), cert_year = Some (trim (orEmpty (cert_year c))) \<rparr>"

section \<open>preprocessResume\<close>

text \<open>
  The function, statement by statement. \<open>data\<close> is the deep copy; each assignment to a
  property of \<open>data\<close> is a record update, and \<open>extraAchievements\<close> is threaded through
  the two \<open>forEach\<close> loops.
\<close>

definition preprocessResume :: "ProcessedResume \<Rightarrow> ProcessedResume" where
  "preprocessResume input =
     (let data0 = input;
          tchars = totalChars data0;
          nlen = nameLen data0;
          cm = compactMode_of tchars;
          maxE = maxExperienceItems_of cm;
          maxB = maxBulletsPerExp_of cm;
          maxEd = maxEducationItems_of cm;
          limit = truncateCharPerLine_of cm;
          extra0 = [];
          data1 = data0\<lparr>experience := Some (orNil (experience data0))\<rparr>;
          data2 = data1\<lparr>education := Some (orNil (education data1))\<rparr>;
          exps = orNil (experience data2);
          (data3, extra1) =
            (if length exps > maxE
             then (data2\<lparr>experience := Some (take maxE exps)\<rparr>,
                   foldl (\<lambda>acc e. pushEntry acc (expEntry maxB e)) extra0 (drop maxE exps))
             else (data2, extra0));
          edus = orNil (education data3);
          (data4, extra2) =
            (if length edus > maxEd
             then (data3\<lparr>education := Some (take maxEd edus)\<rparr>,
                   foldl (\<lambda>acc ed. pushEntry acc (eduEntry ed)) extra1 (drop maxEd edus))
             else (data3, extra1));
          data5 = data4\<lparr>experience :=
                    Some (map (trimExperience maxB limit) (orNil (experience data4)))\<rparr>;
          data6 = data5\<lparr>certifications :=
                    Some (case certifications data5 of
                            Some cs \<Rightarrow> take 20 (map normCertification cs)
                          | None \<Rightarrow> [])\<rparr>;
          data7 = data6\<lparr>softSkills :=
                    Some (take (if cm then 6 else 12) (uniqStrings (softSkills data6)))\<rparr>;
          data8 = data7\<lparr>skills :=
                    Some (take (if cm then 12 else 30) (uniqStrings (skills data7)))\<rparr>;
          data9 = data8\<lparr>languages :=
                    Some (take (if cm then 3 else 8) (uniqStrings (languages data8)))\<rparr>;
          existingAch = (case achivements data9 of
                           Some achs \<Rightarrow> map trim achs
                         | None \<Rightarrow> []);
          combined = filterBoolean (arrayFromSet (existingAch @ extra2));
          achCap = achCap_of cm;
          data10 = data9\<lparr>achivements := Some (take achCap combined)\<rparr>;
          lay = \<lparr> compactMode = cm,
                  nameFontSize = nameFontSize_of tchars nlen,
                  maxExperienceItems = maxE,
                  maxBulletsPerExp = maxB,
                  maxEducationItems = maxEd,
                  truncateCharPerLine = limit,
                  sectionFontSizes = sectionFontSizes_of tchars nlen,
                  sidebarWidthPx = 180 \<rparr>
      in data10\<lparr>layout := Some lay\<rparr>)"

section \<open>The function on an object store\<close>

text \<open>
  To speak about the input object after the call, objects live in a store: a list of
  objects, an object reference being an index. \<open>JSON.parse(JSON.stringify(input || {}))\<close>
  builds a new object, which is the next free index; every later statement of the function
  that writes (\<open>data.experience = ...\<close>) is a write to the store at the reference held
  by \<open>data\<close>. The arrays inside an object are values: the function builds each array it
  stores with \<open>slice\<close>, \<open>map\<close>, \<open>filter\<close> or \<open>Array.from\<close>, which return new
  arrays, and never writes into an existing one.
\<close>

type_synonym heap = "ProcessedResume list"

definition emptyResume :: ProcessedResume where
  "emptyResume =
     \<lparr> name = None, title = None, photoUrl = None, contact = None, summary = None,
       experience = None, education = None, certifications = None, achivements = None,
       volunteer = None, skills = None, softSkills = None, languages = None,
       interests = None, layout = None \<rparr>"

definition preprocessResume_heap :: "heap \<Rightarrow> nat option \<Rightarrow> heap \<times> nat" where
  "preprocessResume_heap h input =
     (let src = (case input of None \<Rightarrow> emptyResume | Some a \<Rightarrow> h ! a);
          data = length h;
          h0 = h @ [src];
          tchars = totalChars (h0 ! data);
          nlen = nameLen (h0 ! data);
          cm = compactMode_of tchars;
          maxE = maxExperienceItems_of cm;
          maxB = maxBulletsPerExp_of cm;
          maxEd = maxEducationItems_of cm;
          limit = truncateCharPerLine_of cm;
          extra0 = [];
          h1 = h0[data := (h0 ! data)\<lparr>experience := Some (orNil (experience (h0 ! data)))\<rparr>];
          h2 = h1[data := (h1 ! data)\<lparr>education := Some (orNil (education (h1 ! data)))\<rparr>];
          exps = orNil (experience (h2 ! data));
          (h3, extra1) =
            (if length exps > maxE
             then (h2[data := (h2 ! data)\<lparr>experience := Some (take maxE exps)\<rparr>],
                   foldl (\<lambda>acc e. pushEntry acc (expEntry maxB e)) extra0 (drop maxE exps))
             else (h2, extra0));
          edus = orNil (education (h3 ! data));
          (h4, extra2) =
            (if length edus > maxEd
             then (h3[data := (h3 ! data)\<lparr>education := Some (take maxEd edus)\<rparr>],
                   foldl (\<lambda>acc ed. pushEntry acc (eduEntry ed)) extra1 (drop maxEd edus))
             else (h3, extra1));
          h5 = h4[data := (h4 ! data)\<lparr>experience :=
                  Some (map (trimExperience maxB limit) (orNil (experience (h4 ! data))))\<rparr>];
          h6 = h5[data := (h5 ! data)\<lparr>certifications :=
                  Some (case certifications (h5 ! data) of
                          Some cs \<Rightarrow> take 20 (map normCertification cs)
                        | None \<Rightarrow> [])\<rparr>];
          h7 = h6[data := (h6 ! data)\<lparr>softSkills :=
                  Some (take (if cm then 6 else 12) (uniqStrings (softSkills (h6 ! data))))\<rparr>];
          h8 = h7[data := (h7 ! data)\<lparr>skills :=
                  Some (take (if cm then 12 else 30) (uniqStrings (skills (h7 ! data))))\<rparr>];
          h9 = h8[data := (h8 ! data)\<lparr>languages :=
                  Some (take (if cm then 3 else 8) (uniqStrings (languages (h8 ! data))))\<rparr>];
          existingAch = (case achivements (h9 ! data) of
                           Some achs \<Rightarrow> map trim achs
                         | None \<Rightarrow> []);
          combined = filterBoolean (arrayFromSet (existingAch @ extra2));
          achCap = achCap_of cm;
          h10 = h9[data := (h9 ! data)\<lparr>achivements := Some (take achCap combined)\<rparr>];
          lay = \<lparr> compactMode = cm,
                  nameFontSize = nameFontSize_of tchars nlen,
                  maxExperienceItems = maxE,
                  maxBulletsPerExp = maxB,
                  maxEducationItems = maxEd,
                  truncateCharPerLine = limit,
                  sectionFontSizes = sectionFontSizes_of tchars nlen,
                  sidebarWidthPx = 180 \<rparr>;
          h11 = h10[data := (h10 ! data)\<lparr>layout := Some lay\<rparr>]
      in (h11, data))"

section \<open>The density text of the experience list on untyped values\<close>

text \<open>
  The declared type of the input is not checked at run time, where a property can hold any
  JSON value. \<open>joinExpText\<close> is the first place where the shape of an experience
  entry matters; here it is on JSON values (numbers left out), with the \<open>TypeError\<close>
  that a property read on \<open>null\<close> or \<open>undefined\<close>, or a call of a missing method,
  throws.
\<close>

datatype jsval =
  JUndefined
| JNull
| JBool bool
| JStr jsstring
| JArr "jsval list"
| JObj "(jsstring \<times> jsval) list"

datatype jserror = TypeError

definition ascii :: "string \<Rightarrow> jsstring" where
  "ascii s = map of_char s"

fun truthy :: "jsval \<Rightarrow> bool" where
  "truthy JUndefined = False"
| "truthy JNull = False"
| "truthy (JBool b) = b"
| "truthy (JStr s) = (s \<noteq> [])"
| "truthy (JArr xs) = True"
| "truthy (JObj kvs) = True"

definition jsOr :: "jsval \<Rightarrow> jsval \<Rightarrow> jsval" where
  "jsOr a b = (if truthy a then a else b)"

text \<open>
  Reading one of the data properties \<open>experience\<close>, \<open>role\<close>, \<open>company\<close>,
  \<open>duration\<close>, \<open>description\<close>: an object has it or not; a string, a boolean and an
  array have none of these names; \<open>null\<close> and \<open>undefined\<close> throw.
\<close>

fun getField :: "jsval \<Rightarrow> jsstring \<Rightarrow> jserror + jsval" where
  "getField JUndefined k = Inl TypeError"
| "getField JNull k = Inl TypeError"
| "getField (JObj kvs) k = Inr (case map_of kvs k of Some v \<Rightarrow> v | None \<Rightarrow> JUndefined)"
| "getField v k = Inr JUndefined"

text \<open>
  The string a template literal or \<open>join\<close> makes of a value; \<open>join\<close> writes
  \<open>null\<close> and \<open>undefined\<close> elements as the empty string.
\<close>

fun toStr :: "jsval \<Rightarrow> jsstring" where
  "toStr JUndefined = ascii ''undefined''"
| "toStr JNull = ascii ''null''"
| "toStr (JBool b) = (if b then ascii ''true'' else ascii ''false'')"
| "toStr (JStr s) = s"
| "toStr (JArr xs) =
     join (ascii '','')
          (map (\<lambda>x. if x = JUndefined \<or> x = JNull then [] else toStr x) xs)"
| "toStr (JObj kvs) = ascii ''[object Object]''"

definition elemStr :: "jsval \<Rightarrow> jsstring" where
  "elemStr x = (if x = JUndefined \<or> x = JNull then [] else toStr x)"

text \<open>\<open>v.join(sep)\<close>: only an array has the method.\<close>

definition callJoin :: "jsval \<Rightarrow> jsstring \<Rightarrow> jserror + jsstring" where
  "callJoin v sep = (case v of JArr xs \<Rightarrow> Inr (join sep (map elemStr xs)) | _ \<Rightarrow> Inl TypeError)"

definition thenE :: "jserror + 'a \<Rightarrow> ('a \<Rightarrow> jserror + 'b) \<Rightarrow> jserror + 'b" where
  "thenE m f = (case m of Inl err \<Rightarrow> Inl err | Inr v \<Rightarrow> f v)"

fun mapE :: "('a \<Rightarrow> jserror + 'b) \<Rightarrow> 'a list \<Rightarrow> jserror + 'b list" where
  "mapE f [] = Inr []"
| "mapE f (x # xs) = thenE (f x) (\<lambda>y. thenE (mapE f xs) (\<lambda>ys. Inr (y # ys)))"

text \<open>The callback of \<open>map\<close> in \<open>joinExpText\<close>.\<close>

definition expText_dyn :: "jsval \<Rightarrow> jserror + jsstring" where
  "expText_dyn e =
     thenE (getField e (ascii ''role'')) (\<lambda>r.
     thenE (getField e (ascii ''company'')) (\<lambda>c.
     thenE (getField e (ascii ''duration'')) (\<lambda>d.
     thenE (getField e (ascii ''description'')) (\<lambda>ds.
     thenE (callJoin (jsOr ds (JArr [])) SPACE) (\<lambda>j.
       Inr (toStr r @ SPACE @ toStr c @ SPACE @ toStr d @ SPACE @ j))))))"

definition joinExpText_dyn :: "jsval \<Rightarrow> jserror + jsstring" where
  "joinExpText_dyn exps =
     (case jsOr exps (JArr []) of
        JArr es \<Rightarrow> thenE (mapE expText_dyn es) (\<lambda>ss. Inr (join SPACE ss))
      | _ \<Rightarrow> Inl TypeError)"

text \<open>Line 212, \<open>joinExpText(data.experience).length\<close>, on the copy of \<open>input || {}\<close>.\<close>

definition expLen_dyn :: "jsval \<Rightarrow> jserror + nat" where
  "expLen_dyn input =
     thenE (getField (jsOr input (JObj [])) (ascii ''experience'')) (\<lambda>exps.
     thenE (joinExpText_dyn exps) (\<lambda>s. Inr (length s)))"

text \<open>A well-typed experience list as a JSON value.\<close>

definition jsonOfExperience :: "Experience \<Rightarrow> jsval" where
  "jsonOfExperience e =
     JObj [(ascii ''role'', JStr (role e)), (ascii ''company'', JStr (company e)),
           (ascii ''duration'', JStr (duration e)),
           (ascii ''description'', JArr (map JStr (description e)))]"

section \<open>The specification's wording, for comparison\<close>

text \<open>
  The total length of pieces of the given lengths written one after the other with one
  separating space between neighbours.
\<close>

definition sepSum :: "nat list \<Rightarrow> nat" where
  "sepSum ns = sum_list ns + (length ns - 1)"





text \<open>A string with at least one character and no white space at either end.\<close>

definition clean :: "jsstring \<Rightarrow> bool" where
  "clean s \<longleftrightarrow> s \<noteq> [] \<and> \<not> isWhiteSpace (hd s) \<and> \<not> isWhiteSpace (last s)"

text \<open>\<open>"{role} \<emdash> {company} \<bullet> {bullet1} \<bullet> {bullet2} ..."\<close>, bullets capped.\<close>

definition specExpEntry :: "nat \<Rightarrow> Experience \<Rightarrow> jsstring" where
  "specExpEntry maxB e =
     role e @ DASH_SEP @ company e
     @ concat (map (\<lambda>b. BULLET_SEP @ b) (take maxB (description e)))"

text \<open>\<open>"{degree} \<emdash> {school} {year}"\<close>.\<close>

definition specEduEntry :: "Education \<Rightarrow> jsstring" where
  "specEduEntry ed = degree ed @ DASH_SEP @ school ed @ SPACE @ year ed"

section \<open>Example inputs\<close>

definition letters :: "nat \<Rightarrow> jsstring" where
  "letters n = replicate n 0x61"

text \<open>A resume whose only text is a name of 2200 characters.\<close>

definition exBoundary :: ProcessedResume where
  "exBoundary = emptyResume\<lparr>name := Some (letters 2200)\<rparr>"

text \<open>
  Seven experience entries with five bullets each and seven education entries, in normal
  mode: one entry of each list overflows.
\<close>

definition jobA :: Experience where
  "jobA = \<lparr> role = letters 1, company = letters 2, duration = letters 3,
            description = [letters 3, letters 2, letters 1, letters 1, letters 1] \<rparr>"

definition schoolA :: Education where
  "schoolA = \<lparr> degree = letters 1, school = letters 1, year = letters 4 \<rparr>"

definition exOverflow :: ProcessedResume where
  "exOverflow =
     emptyResume\<lparr> name := Some (letters 4), experience := Some (replicate 7 jobA),
       education := Some (replicate 7 schoolA), achivements := Some [letters 5] \<rparr>"

text \<open>Seven experience entries, in normal mode; the one that overflows has an empty bullet.\<close>

definition jobBlank :: Experience where
  "jobBlank = \<lparr> role = letters 2, company = letters 2, duration = letters 2,
                description = [[], letters 2] \<rparr>"

definition exBlank :: ProcessedResume where
  "exBlank = emptyResume\<lparr> experience := Some (replicate 6 jobA @ [jobBlank]) \<rparr>"

text \<open>One experience entry whose only bullet starts with a space.\<close>

definition exPadded :: ProcessedResume where
  "exPadded =
     emptyResume\<lparr> experience :=
       Some [\<lparr> role = letters 1, company = letters 1, duration = letters 1,
               description = [0x20 # letters 1] \<rparr>] \<rparr>"

text \<open>One experience entry whose only bullet has 300 characters.\<close>

definition exLong :: ProcessedResume where
  "exLong =
     emptyResume\<lparr> experience :=
       Some [\<lparr> role = letters 1, company = letters 1, duration = letters 1,
               description = [letters 300] \<rparr>] \<rparr>"

text \<open>The same entry in a resume that is compact because of its name of 2201 characters.\<close>

definition exCompact :: ProcessedResume where
  "exCompact =
     emptyResume\<lparr> name := Some (letters 2201),
       experience :=
         Some [\<lparr> role = letters 1, company = letters 1, duration = letters 1,
                 description = [letters 300] \<rparr>] \<rparr>"

text \<open>
  A resume of exactly 2200 characters: a summary, one experience entry with a bullet of
  221 characters, and eight education entries, the last two unlike each other.
\<close>

definition schoolB :: Education where
  "schoolB = \<lparr> degree = letters 1, school = letters 1, year = letters 1 \<rparr>"

definition schoolC :: Education where
  "schoolC = \<lparr> degree = letters 2, school = letters 1, year = letters 1 \<rparr>"

definition exSecond :: ProcessedResume where
  "exSecond =
     emptyResume\<lparr> summary := Some (letters 1907),
       experience :=
         Some [\<lparr> role = letters 1, company = letters 1, duration = letters 1,
                 description = [letters 221] \<rparr>],
       education := Some (replicate 6 schoolA @ [schoolB, schoolC]) \<rparr>"

text \<open>Parsed JSON in which the description of the experience entry is a string.\<close>

definition exMalformed :: jsval where
  "exMalformed =
     JObj [(ascii ''name'', JStr (letters 4)),
           (ascii ''experience'',
            JArr [JObj [(ascii ''role'', JStr (letters 1)),
                        (ascii ''company'', JStr (letters 1)),
                        (ascii ''duration'', JStr (letters 1)),
                        (ascii ''description'', JStr (letters 9))]])]"




section \<open>Facts about the string and array helpers\<close>

lemma length_join:
  "length (join sep xs) = sum_list (map length xs) + (length xs - 1) * length sep"
  by (induction sep xs rule: join.induct) auto

lemma length_SPACE: "length SPACE = 1"
  by (simp add: SPACE_def)

lemma length_join_SPACE: "length (join SPACE xs) = sepSum (map length xs)"
  by (simp add: length_join sepSum_def length_SPACE)

lemma join_Cons_concat: "join sep (t # ys) = t @ concat (map (\<lambda>b. sep @ b) ys)"
  by (induction ys arbitrary: t) simp_all

lemma join_Cons_neq_Nil: "t \<noteq> [] \<Longrightarrow> join sep (t # ys) \<noteq> []"
  by (cases ys) simp_all

lemma sepSum_small:
  "sepSum [a, b, c, d] = Suc (Suc (Suc (a + (b + (c + d)))))"
  "sepSum [a, b, c] = Suc (Suc (a + (b + c)))"
  by (simp_all add: sepSum_def)

lemma trim_Nil [simp]: "trim [] = []"
  by (simp add: trim_def)

lemma length_trim_le: "length (trim s) \<le> length s"
proof -
  have "length (trim s) \<le> length (dropWhile isWhiteSpace s)"
    unfolding trim_def
    using length_dropWhile_le [of isWhiteSpace "rev (dropWhile isWhiteSpace s)"] by simp
  also have "\<dots> \<le> length s"
    by (rule length_dropWhile_le)
  finally show ?thesis .
qed

text \<open>Trimming does nothing to a string that starts and ends with a visible character.\<close>

lemma trim_clean: "clean s \<Longrightarrow> trim s = s"
proof -
  assume c: "clean s"
  then obtain x xs where s: "s = x # xs"
    by (cases s) (auto simp: clean_def)
  with c have front: "dropWhile isWhiteSpace s = s"
    by (simp add: clean_def)
  from c have "rev s \<noteq> []" "\<not> isWhiteSpace (hd (rev s))"
    by (auto simp: clean_def hd_rev)
  then have "dropWhile isWhiteSpace (rev s) = rev s"
    by (cases "rev s") auto
  with front show ?thesis
    by (simp add: trim_def)
qed

text \<open>What trimming leaves is empty or starts and ends with a visible character.\<close>

lemma trim_eq_Nil_or_clean: "trim s = [] \<or> clean (trim s)"
proof (cases "trim s = []")
  case True
  then show ?thesis by simp
next
  case False
  let ?d = "dropWhile isWhiteSpace s"
  let ?r = "dropWhile isWhiteSpace (rev ?d)"
  have t: "trim s = rev ?r"
    by (simp add: trim_def)
  from False t have rne: "?r \<noteq> []"
    by simp
  then have hr: "\<not> isWhiteSpace (hd ?r)"
    by (rule hd_dropWhile)
  from rne have dne: "?d \<noteq> []"
    by (cases "?d") auto
  then have hd_d: "\<not> isWhiteSpace (hd ?d)"
    by (rule hd_dropWhile)
  have "last (trim s) = hd ?r"
    using rne by (simp add: t last_rev)
  moreover have "hd (trim s) = hd ?d"
  proof -
    obtain ys where "rev ?d = ys @ ?r"
      by (metis takeWhile_dropWhile_id)
    then have "?d = rev ?r @ rev ys"
      by (metis rev_append rev_rev_ident)
    then show ?thesis
      using rne t by (metis hd_append2 rev_is_Nil_conv)
  qed
  ultimately show ?thesis
    using False hr hd_d by (simp add: clean_def)
qed

lemma trim_idem [simp]: "trim (trim s) = trim s"
  using trim_eq_Nil_or_clean [of s] by (auto simp: trim_clean)

lemma trim_neq_Nil:
  assumes "x \<in> set s" "\<not> isWhiteSpace x"
  shows "trim s \<noteq> []"
proof -
  have mem: "y \<in> set (dropWhile P ys)" if "y \<in> set ys" "\<not> P y"
    for P and y :: jschar and ys
  proof -
    have "set ys = set (takeWhile P ys) \<union> set (dropWhile P ys)"
      by (metis set_append takeWhile_dropWhile_id)
    with that show ?thesis
      by (auto dest: set_takeWhileD)
  qed
  from assms have "x \<in> set (dropWhile isWhiteSpace s)"
    by (rule mem)
  then have "x \<in> set (rev (dropWhile isWhiteSpace s))"
    by simp
  then have "x \<in> set (dropWhile isWhiteSpace (rev (dropWhile isWhiteSpace s)))"
    using assms(2) by (rule mem)
  then have "dropWhile isWhiteSpace (rev (dropWhile isWhiteSpace s)) \<noteq> []"
    by (metis empty_iff empty_set)
  then show ?thesis
    unfolding trim_def by (metis rev_is_Nil_conv)
qed

lemma not_ws_dash: "\<not> isWhiteSpace 0x2014"
  by (simp add: isWhiteSpace_def)

lemma not_ws_ellipsis: "\<not> isWhiteSpace 0x2026"
  by (simp add: isWhiteSpace_def)

lemma not_ws_letter: "\<not> isWhiteSpace 0x61"
  by (simp add: isWhiteSpace_def)

lemma clean_append: "clean a \<Longrightarrow> clean b \<Longrightarrow> clean (a @ m @ b)"
  by (auto simp: clean_def)

lemma length_letters [simp]: "length (letters n) = n"
  by (simp add: letters_def)

lemma clean_letters: "0 < n \<Longrightarrow> clean (letters n)"
  by (cases n) (simp_all add: clean_def letters_def not_ws_letter)

text \<open>The Set keeps the first occurrence of every element, in order.\<close>

lemma distinct_foldl_setAdd: "distinct acc \<Longrightarrow> distinct (foldl setAdd acc xs)"
  by (induction xs arbitrary: acc) (auto simp: setAdd_def)

lemma set_foldl_setAdd: "set (foldl setAdd acc xs) = set acc \<union> set xs"
  by (induction xs arbitrary: acc) (auto simp: setAdd_def)

lemma distinct_arrayFromSet: "distinct (arrayFromSet xs)"
  by (simp add: arrayFromSet_def distinct_foldl_setAdd)

lemma set_arrayFromSet: "set (arrayFromSet xs) = set xs"
  by (simp add: arrayFromSet_def set_foldl_setAdd)

lemma foldl_setAdd_distinct: "distinct (acc @ xs) \<Longrightarrow> foldl setAdd acc xs = acc @ xs"
  by (induction xs arbitrary: acc) (auto simp: setAdd_def)

lemma arrayFromSet_distinct: "distinct xs \<Longrightarrow> arrayFromSet xs = xs"
  using foldl_setAdd_distinct [of "[]" xs] by (simp add: arrayFromSet_def)

lemma length_foldl_setAdd: "length (foldl setAdd acc xs) \<le> length acc + length xs"
proof (induction xs arbitrary: acc)
  case Nil
  then show ?case by simp
next
  case (Cons x xs)
  have "length (foldl setAdd (setAdd acc x) xs) \<le> length (setAdd acc x) + length xs"
    by (rule Cons.IH)
  also have "\<dots> \<le> length acc + length (x # xs)"
    by (simp add: setAdd_def)
  finally show ?case by simp
qed

lemma length_arrayFromSet: "length (arrayFromSet xs) \<le> length xs"
  using length_foldl_setAdd [of "[]" xs] by (simp add: arrayFromSet_def)

lemma clamp_bounds: "a \<le> b \<Longrightarrow> a \<le> clamp v a b \<and> clamp v a b \<le> b"
  by (simp add: clamp_def)

section \<open>The fields of the result\<close>

lemma layout_pre:
  "layout (preprocessResume r) =
     Some \<lparr> compactMode = compactMode_of (totalChars r),
            nameFontSize = nameFontSize_of (totalChars r) (nameLen r),
            maxExperienceItems = maxExperienceItems_of (compactMode_of (totalChars r)),
            maxBulletsPerExp = maxBulletsPerExp_of (compactMode_of (totalChars r)),
            maxEducationItems = maxEducationItems_of (compactMode_of (totalChars r)),
            truncateCharPerLine = truncateCharPerLine_of (compactMode_of (totalChars r)),
            sectionFontSizes = sectionFontSizes_of (totalChars r) (nameLen r),
            sidebarWidthPx = 180 \<rparr>"
  by (simp add: preprocessResume_def Let_def split: prod.splits)

lemma experience_pre:
  "experience (preprocessResume r) =
     Some (map (trimExperience (maxBulletsPerExp_of (compactMode_of (totalChars r)))
                               (truncateCharPerLine_of (compactMode_of (totalChars r))))
               (take (maxExperienceItems_of (compactMode_of (totalChars r)))
                     (orNil (experience r))))"
  by (simp add: preprocessResume_def Let_def orNil_def split: prod.splits)

lemma education_pre:
  "education (preprocessResume r) =
     Some (take (maxEducationItems_of (compactMode_of (totalChars r))) (orNil (education r)))"
  by (simp add: preprocessResume_def Let_def orNil_def split: prod.splits)

lemma achivements_pre_fold:
  "achivements (preprocessResume r) =
     Some (let cm = compactMode_of (totalChars r);
               maxE = maxExperienceItems_of cm; maxB = maxBulletsPerExp_of cm;
               maxEd = maxEducationItems_of cm;
               exps = orNil (experience r); edus = orNil (education r)
           in take (achCap_of cm) (filterBoolean (arrayFromSet (map trim (orNil (achivements r))
                @ foldl (\<lambda>acc ed. pushEntry acc (eduEntry ed))
                    (foldl (\<lambda>acc e. pushEntry acc (expEntry maxB e)) []
                       (if length exps > maxE then drop maxE exps else []))
                    (if length edus > maxEd then drop maxEd edus else [])))))"
  by (simp add: preprocessResume_def Let_def orNil_def split: prod.splits option.splits)

lemma drop_all_if: "(if length xs > n then drop n xs else []) = drop n xs"
  by simp

lemma foldl_pushEntry:
  "(\<And>x. f x \<noteq> []) \<Longrightarrow> foldl (\<lambda>acc x. pushEntry acc (f x)) acc xs = acc @ map f xs"
  by (induction xs arbitrary: acc) (simp_all add: pushEntry_def)

text \<open>A condensed entry holds the dash, so it is never empty and is always pushed.\<close>

lemma title_neq_Nil: "trim (a @ DASH_SEP @ b) \<noteq> []"
  by (rule trim_neq_Nil [where x = "0x2014"]) (simp_all add: DASH_SEP_def not_ws_dash)

lemma expEntry_neq_Nil: "expEntry maxB e \<noteq> []"
  by (simp add: expEntry_def Let_def filterBoolean_def title_neq_Nil join_Cons_neq_Nil)

lemma eduEntry_neq_Nil: "eduEntry ed \<noteq> []"
  unfolding eduEntry_def by (rule title_neq_Nil)

lemma achivements_pre:
  "achivements (preprocessResume r) =
     Some (take (achCap_of (compactMode_of (totalChars r)))
            (filterBoolean (arrayFromSet (map trim (orNil (achivements r))
                @ map (expEntry (maxBulletsPerExp_of (compactMode_of (totalChars r))))
                      (drop (maxExperienceItems_of (compactMode_of (totalChars r)))
                            (orNil (experience r)))
                @ map eduEntry (drop (maxEducationItems_of (compactMode_of (totalChars r)))
                                     (orNil (education r)))))))"
  by (simp add: achivements_pre_fold Let_def drop_all_if foldl_pushEntry expEntry_neq_Nil
      eduEntry_neq_Nil)

lemma filter_clean:
  "(\<And>b. b \<in> set bs \<Longrightarrow> clean b) \<Longrightarrow> filterBoolean (map trim bs) = bs"
proof (induction bs)
  case Nil
  then show ?case by (simp add: filterBoolean_def)
next
  case (Cons b bs)
  then have "clean b" by simp
  then have "trim b = b" "b \<noteq> []"
    by (auto simp: trim_clean clean_def)
  with Cons show ?case
    by (simp add: filterBoolean_def)
qed

lemma expEntry_spec:
  assumes "clean (role e)" "clean (company e)"
    and "\<And>b. b \<in> set (take maxB (description e)) \<Longrightarrow> clean b"
  shows "expEntry maxB e = specExpEntry maxB e"
proof -
  have t: "trim (role e @ DASH_SEP @ company e) = role e @ DASH_SEP @ company e"
    using assms(1,2) by (intro trim_clean clean_append)
  have ne: "role e @ DASH_SEP @ company e \<noteq> []"
    by (simp add: DASH_SEP_def)
  have "filterBoolean (map trim (take maxB (description e))) = take maxB (description e)"
    using assms(3) by (rule filter_clean)
  then have "filterBoolean ((role e @ DASH_SEP @ company e) # map trim (take maxB (description e)))
       = (role e @ DASH_SEP @ company e) # take maxB (description e)"
    using ne by (simp add: filterBoolean_def)
  then show ?thesis
    by (simp add: expEntry_def specExpEntry_def Let_def t join_Cons_concat)
qed

lemma eduEntry_spec:
  assumes "clean (degree ed)" "clean (year ed)"
  shows "eduEntry ed = specEduEntry ed"
proof -
  have y: "trim (year ed) = year ed"
    using assms(2) by (rule trim_clean)
  have "clean (degree ed @ (DASH_SEP @ school ed @ SPACE) @ year ed)"
    using assms by (rule clean_append)
  then have "trim (degree ed @ DASH_SEP @ school ed @ SPACE @ year ed)
      = degree ed @ DASH_SEP @ school ed @ SPACE @ year ed"
    using trim_clean by fastforce
  then show ?thesis
    by (simp add: eduEntry_def specEduEntry_def y)
qed

lemma length_trimExperience: "length (description (trimExperience maxB limit e)) \<le> maxB"
  by (simp add: trimExperience_def Let_def)

section \<open>The density measure\<close>

text \<open>The lengths behind the density measure.\<close>

lemma totalChars_lengths:
  "totalChars r =
     length (orEmpty (name r)) + length (orEmpty (title r)) + length (orEmpty (summary r))
     + sepSum (map (\<lambda>e. sepSum [length (role e), length (company e), length (duration e),
                                 sepSum (map length (description e))])
                   (orNil (experience r)))
     + sepSum (map (\<lambda>e. sepSum [length (degree e), length (school e), length (year e)])
                   (orNil (education r)))
     + sepSum (map length (orNil (skills r)))
     + sepSum (map length (orNil (softSkills r)))
     + sepSum (map length (orNil (achivements r)))
     + sepSum (map length (orNil (languages r)))
     + sepSum (map (\<lambda>c. length (cert_name c) + length (orEmpty (cert_year c)))
                   (orNil (certifications r)))
     + sepSum (map (\<lambda>v. sepSum [length (vol_role v), length (vol_org v),
                                 sepSum (map length (vol_description v))])
                   (orNil (volunteer r)))"
  by (simp add: totalChars_def nameLen_def titleLen_def summaryLen_def
      expLen_def eduLen_def skillsLen_def softLen_def achLen_def langsLen_def certLen_def
      volunteerLen_def joinExpText_def joinEduText_def joinSimple_def length_join_SPACE
      o_def length_SPACE sepSum_small)

lemma totalChars_exBoundary: "totalChars exBoundary = 2200"
  by (simp add: totalChars_lengths exBoundary_def emptyResume_def
      orNil_def orEmpty_def sepSum_def)

lemma totalChars_exOverflow: "totalChars exOverflow = 224"
  by (simp add: totalChars_lengths exOverflow_def emptyResume_def jobA_def
      schoolA_def orNil_def orEmpty_def sepSum_def sum_list_replicate)

lemma mode_exOverflow: "compactMode_of (totalChars exOverflow) = False"
  by (simp add: totalChars_exOverflow compactMode_of_def MEDIUM_CHARS_def)

section \<open>Layout hints\<close>

text \<open>
  C1. The compact-mode flag of the result is true exactly when the density measure is
  greater than 2200; at exactly 2200 it is false.
\<close>

theorem C1_compactMode_iff:
  "map_option compactMode (layout (preprocessResume r)) = Some (2200 < totalChars r)
   \<and> (totalChars r = 2200
        \<longrightarrow> map_option compactMode (layout (preprocessResume r)) = Some False)"
  by (simp add: layout_pre compactMode_of_def MEDIUM_CHARS_def)

theorem C1_compactMode_iff_witness:
  "totalChars exBoundary = 2200
   \<and> map_option compactMode (layout (preprocessResume exBoundary)) = Some False"
  using C1_compactMode_iff [of exBoundary] by (simp add: totalChars_exBoundary)

text \<open>
  C2. Every section font size is its base value (14, 12, 12, 11, 10) times the global scale
  (the two sidebar sizes also times 0.88 when the density is above 4200), rounded and then
  clamped to its window: sectionTitle in [10,18], body in [9,14], sidebarTitle in [9,14],
  sidebarBody in [8,12], duration in [8,12]; the name font size lies in [16,48]. The global
  scale is the square root of 3600 over the density (over 1 for an empty resume), kept
  between 0.7 and 1; clamping a value to a window is taking the larger of the window's
  lower end and the smaller of its upper end and the value.
\<close>

theorem C2_font_sizes_in_windows:
  "\<exists>L. layout (preprocessResume r) = Some L \<and>
     (let t = totalChars r;
          g = max 0.7 (min 1 ((3600 / max 1 (real t)) powr 0.5));
          p = (if 4200 < t then 0.88 else 1);
          S = sectionFontSizes L
      in sectionTitle S = max 10 (min 18 (of_int (round (14 * g))))
       \<and> body S = max 9 (min 14 (of_int (round (12 * g))))
       \<and> sidebarTitle S = max 9 (min 14 (of_int (round (12 * g * p))))
       \<and> sidebarBody S = max 8 (min 12 (of_int (round (11 * g * p))))
       \<and> fs_duration S = max 8 (min 12 (of_int (round (10 * g))))
       \<and> 10 \<le> sectionTitle S \<and> sectionTitle S \<le> 18
       \<and> 9 \<le> body S \<and> body S \<le> 14
       \<and> 9 \<le> sidebarTitle S \<and> sidebarTitle S \<le> 14
       \<and> 8 \<le> sidebarBody S \<and> sidebarBody S \<le> 12
       \<and> 8 \<le> fs_duration S \<and> fs_duration S \<le> 12
       \<and> 16 \<le> nameFontSize L \<and> nameFontSize L \<le> 48)"
  unfolding clamp_def [symmetric]
  by (simp add: layout_pre sectionFontSizes_of_def Let_def globalScale_of_def rawScale_of_def
      sidebarPenalty_of_def TARGET_CHARS_def COMPACT_CHAR_THRESHOLD_def nameFontSize_of_def
      clamp_bounds)

text \<open>
  C10. The sidebar width of the result is the constant 180, whatever the input, and the
  name entry of the section font sizes equals the name font size.
\<close>

theorem C10_sidebar_width_and_name_size:
  "\<exists>L. layout (preprocessResume r) = Some L
      \<and> sidebarWidthPx L = 180
      \<and> fs_name (sectionFontSizes L) = nameFontSize L"
  by (simp add: layout_pre sectionFontSizes_of_def)

text \<open>The scale stays within its floor and ceiling, and is 1 up to 3600 characters.\<close>

lemma globalScale_of_bounds: "0.7 \<le> globalScale_of t \<and> globalScale_of t \<le> 1"
  unfolding globalScale_of_def by (rule clamp_bounds) simp

lemma globalScale_of_small: "t \<le> 3600 \<Longrightarrow> globalScale_of t = 1"
proof -
  assume t: "t \<le> 3600"
  then have "max 1 (real t) \<le> 3600"
    by simp
  then have "1 \<le> rawScale_of t"
    by (simp add: rawScale_of_def TARGET_CHARS_def le_divide_eq)
  then have "1 \<le> rawScale_of t powr 0.5"
    by (simp add: ge_one_powr_ge_zero)
  then show ?thesis
    by (simp add: globalScale_of_def clamp_def)
qed

text \<open>The layout hints of a small resume: the base sizes, unscaled.\<close>

lemma layout_exOverflow:
  "layout (preprocessResume exOverflow)
     = Some \<lparr> compactMode = False, nameFontSize = 40, maxExperienceItems = 6,
              maxBulletsPerExp = 4, maxEducationItems = 6, truncateCharPerLine = 220,
              sectionFontSizes = \<lparr> fs_name = 40, sectionTitle = 14, body = 12,
                 sidebarTitle = 12, sidebarBody = 11, fs_duration = 10 \<rparr>,
              sidebarWidthPx = 180 \<rparr>"
proof -
  have n: "nameLen exOverflow = 4"
    by (simp add: nameLen_def exOverflow_def emptyResume_def orEmpty_def)
  have g: "globalScale_of 224 = 1"
    by (rule globalScale_of_small) simp
  show ?thesis
    by (simp add: layout_pre totalChars_exOverflow n g compactMode_of_def MEDIUM_CHARS_def
        nameFontSize_of_def sectionFontSizes_of_def sidebarPenalty_of_def
        COMPACT_CHAR_THRESHOLD_def maxExperienceItems_of_def maxBulletsPerExp_of_def
        maxEducationItems_of_def truncateCharPerLine_of_def clamp_def)
qed

section \<open>Caps and overflow\<close>

text \<open>
  C3. In the result the experience list has at most maxExperienceItems entries (6, or 3 in
  compact mode), the education list at most maxEducationItems (6, or 2), and every
  experience entry at most maxBulletsPerExp bullets (4, or 2).
\<close>

theorem C3_lists_within_caps:
  "\<exists>L exps edus. layout (preprocessResume r) = Some L
      \<and> experience (preprocessResume r) = Some exps
      \<and> education (preprocessResume r) = Some edus
      \<and> length exps \<le> maxExperienceItems L
      \<and> length edus \<le> maxEducationItems L
      \<and> (\<forall>e \<in> set exps. length (description e) \<le> maxBulletsPerExp L)
      \<and> maxExperienceItems L = (if compactMode L then 3 else 6)
      \<and> maxEducationItems L = (if compactMode L then 2 else 6)
      \<and> maxBulletsPerExp L = (if compactMode L then 2 else 4)"
  by (auto simp add: layout_pre experience_pre education_pre length_trimExperience
      maxExperienceItems_of_def maxEducationItems_of_def maxBulletsPerExp_of_def)

theorem C3_lists_within_caps_witness:
  "length (orNil (experience (preprocessResume exOverflow))) = 6
   \<and> length (description (hd (orNil (experience (preprocessResume exOverflow))))) = 4"
proof -
  have e: "experience (preprocessResume exOverflow)
           = Some (replicate 6 (trimExperience 4 220 jobA))"
    by (simp add: experience_pre mode_exOverflow maxExperienceItems_of_def
        maxBulletsPerExp_of_def truncateCharPerLine_of_def)
       (simp add: orNil_def exOverflow_def emptyResume_def)
  have d: "length (description (trimExperience 4 220 jobA)) = 4"
    by (simp add: trimExperience_def jobA_def)
  from C3_lists_within_caps [of exOverflow] e d show ?thesis
    by (auto simp: orNil_def)
qed

lemma totalChars_exBlank: "totalChars exBlank = 144"
  by (simp add: totalChars_lengths exBlank_def emptyResume_def jobA_def
      jobBlank_def orNil_def orEmpty_def sepSum_def sum_list_replicate)

lemma trim_letters: "trim (letters n) = letters n"
  by (cases n) (simp_all add: trim_clean clean_letters, simp add: letters_def)

lemma expEntry_jobBlank:
  "expEntry 4 jobBlank = letters 2 @ DASH_SEP @ letters 2 @ BULLET_SEP @ letters 2"
proof -
  have t: "trim (letters 2 @ DASH_SEP @ letters 2) = letters 2 @ DASH_SEP @ letters 2"
    by (intro trim_clean clean_append clean_letters) simp_all
  have n: "letters 2 \<noteq> []"
    by (simp add: letters_def)
  show ?thesis
    by (simp add: expEntry_def jobBlank_def filterBoolean_def trim_letters t n)
qed

text \<open>
  C4, as the claim states it, fails. The entry that overflows has the bullets "" and "aa",
  within the cap of four bullets; the format of the claim makes "aa \<emdash> aa \<bullet>  \<bullet> aa"
  of it, and the achievements of the result hold "aa \<emdash> aa \<bullet> aa": the empty bullet
  is dropped.
\<close>

theorem C4_blank_bullet_counterexample:
  "map_option maxBulletsPerExp (layout (preprocessResume exBlank)) = Some 4
   \<and> drop 6 (orNil (experience exBlank)) = [jobBlank]
   \<and> achivements (preprocessResume exBlank)
       = Some [letters 2 @ DASH_SEP @ letters 2 @ BULLET_SEP @ letters 2]
   \<and> specExpEntry 4 jobBlank
       = letters 2 @ DASH_SEP @ letters 2 @ BULLET_SEP @ [] @ BULLET_SEP @ letters 2
   \<and> achivements (preprocessResume exBlank) \<noteq> Some [specExpEntry 4 jobBlank]"
proof -
  have m: "compactMode_of (totalChars exBlank) = False"
    by (simp add: totalChars_exBlank compactMode_of_def MEDIUM_CHARS_def)
  have l: "map_option maxBulletsPerExp (layout (preprocessResume exBlank)) = Some 4"
    by (simp add: layout_pre m maxBulletsPerExp_of_def)
  have f: "orNil (experience exBlank) = replicate 6 jobA @ [jobBlank]"
    "orNil (education exBlank) = []" "orNil (achivements exBlank) = []"
    by (simp_all add: exBlank_def emptyResume_def orNil_def)
  have a: "achivements (preprocessResume exBlank) = Some [expEntry 4 jobBlank]"
    using expEntry_neq_Nil [of 4 jobBlank]
    by (simp add: achivements_pre m f maxExperienceItems_of_def maxBulletsPerExp_of_def
        maxEducationItems_of_def achCap_of_def arrayFromSet_def setAdd_def filterBoolean_def)
  have s: "specExpEntry 4 jobBlank
       = letters 2 @ DASH_SEP @ letters 2 @ BULLET_SEP @ [] @ BULLET_SEP @ letters 2"
    by (simp add: specExpEntry_def jobBlank_def)
  have "length (expEntry 4 jobBlank) \<noteq> length (specExpEntry 4 jobBlank)"
    by (simp add: expEntry_jobBlank s DASH_SEP_def BULLET_SEP_def)
  then have n: "expEntry 4 jobBlank \<noteq> specExpEntry 4 jobBlank"
    by auto
  from l f a s n show ?thesis
    by (simp add: expEntry_jobBlank)
qed

text \<open>
  C4, amended. The experience entries beyond maxExperienceItems and the education entries
  beyond maxEducationItems are removed (the entries before them stay, in order), and each
  becomes one condensed string, in order: the trimmed "role, dash, company" followed by the
  entry's first maxBulletsPerExp bullets, trimmed, the empty ones dropped, joined with the
  bullet separator; the trimmed "degree, dash, school, trimmed year" for an education
  entry. On parts that are not empty and have no white space at their ends (role, company
  and every bullet; degree and year) these are exactly the strings of the format "{role} \<emdash> {company} \<bullet> {bullet1} \<bullet> {bullet2} ..." and
  "{degree} \<emdash> {school} {year}". The achievements of the result are the trimmed existing
  ones followed by the overflow strings, every string kept at its first occurrence only,
  the empty ones dropped, cut to 6 in compact mode and 12 otherwise: at most that many, and
  no string twice. Where these strings are non-empty and all different, the union is the
  existing ones followed by the overflow, in this order.
\<close>

theorem C4_overflow_into_achievements:
  "(let cm = compactMode_of (totalChars r);
        maxE = (if cm then 3 else 6); maxB = (if cm then 2 else 4);
        maxEd = (if cm then 2 else 6); achCap = (if cm then 6 else 12);
        exps = orNil (experience r); edus = orNil (education r);
        condensed = (\<lambda>e. join BULLET_SEP (filterBoolean
                      (trim (role e @ DASH_SEP @ company e)
                       # map trim (take maxB (description e)))));
        condensedEd = (\<lambda>ed. trim (degree ed @ DASH_SEP @ school ed @ SPACE @ trim (year ed)));
        overflow = map condensed (drop maxE exps) @ map condensedEd (drop maxEd edus);
        union = filterBoolean (arrayFromSet (map trim (orNil (achivements r)) @ overflow))
    in map_option (map (\<lambda>e. (role e, company e, duration e))) (experience (preprocessResume r))
         = Some (map (\<lambda>e. (role e, company e, duration e)) (take maxE exps))
     \<and> education (preprocessResume r) = Some (take maxEd edus)
     \<and> achivements (preprocessResume r) = Some (take achCap union)
     \<and> length (take achCap union) \<le> achCap
     \<and> distinct (take achCap union)
     \<and> (distinct (map trim (orNil (achivements r)) @ overflow)
           \<and> [] \<notin> set (map trim (orNil (achivements r)))
          \<longrightarrow> union = map trim (orNil (achivements r)) @ overflow)
     \<and> (\<forall>e \<in> set (drop maxE exps).
           clean (role e) \<and> clean (company e) \<and> (\<forall>b \<in> set (description e). clean b)
           \<longrightarrow> condensed e = specExpEntry maxB e)
     \<and> (\<forall>ed \<in> set (drop maxEd edus).
           clean (degree ed) \<and> clean (year ed) \<longrightarrow> condensedEd ed = specEduEntry ed))"
proof -
  have c: "(\<lambda>e. join BULLET_SEP (filterBoolean
                  (trim (role e @ DASH_SEP @ company e) # map trim (take b (description e)))))
           = expEntry b" for b
    by (rule ext) (simp add: expEntry_def)
  have ce: "(\<lambda>ed. trim (degree ed @ DASH_SEP @ school ed @ SPACE @ trim (year ed))) = eduEntry"
    by (rule ext) (simp add: eduEntry_def)
  have d: "distinct (take n (filterBoolean (arrayFromSet xs)))" for n and xs :: "jsstring list"
    by (simp add: filterBoolean_def distinct_arrayFromSet)
  have r: "role (trimExperience b l x) = role x" "company (trimExperience b l x) = company x"
    "duration (trimExperience b l x) = duration x" for b l x
    by (simp_all add: trimExperience_def Let_def)
  have s: "expEntry b e = specExpEntry b e"
    if "clean (role e)" "clean (company e)" "\<forall>x \<in> set (description e). clean x" for b e
    using that by (intro expEntry_spec) (auto dest: in_set_takeD)
  have u: "filterBoolean (arrayFromSet (xs @ map (expEntry b) es @ map eduEntry ds))
           = xs @ map (expEntry b) es @ map eduEntry ds"
    if "distinct (xs @ map (expEntry b) es @ map eduEntry ds)" "[] \<notin> set xs"
    for xs b es ds
  proof -
    have "[] \<notin> set (xs @ map (expEntry b) es @ map eduEntry ds)"
      using that(2) expEntry_neq_Nil [THEN not_sym] eduEntry_neq_Nil [THEN not_sym] by auto
    then have "filterBoolean (xs @ map (expEntry b) es @ map eduEntry ds)
               = xs @ map (expEntry b) es @ map eduEntry ds"
      unfolding filterBoolean_def by (intro filter_True) metis
    then show ?thesis
      using that(1) by (simp add: arrayFromSet_distinct)
  qed
  show ?thesis
    unfolding Let_def c ce
    by (intro conjI)
       (simp_all add: experience_pre education_pre achivements_pre d r s u eduEntry_spec
          maxExperienceItems_of_def maxBulletsPerExp_of_def maxEducationItems_of_def
          achCap_of_def)
qed

lemma jobA_clean:
  "clean (role jobA) \<and> clean (company jobA) \<and> (\<forall>b \<in> set (description jobA). clean b)"
  by (simp add: jobA_def clean_letters)

lemma schoolA_clean: "clean (degree schoolA) \<and> clean (year schoolA)"
  by (simp add: schoolA_def clean_letters)

lemma exOverflow_fields:
  "orNil (experience exOverflow) = replicate 7 jobA"
  "orNil (education exOverflow) = replicate 7 schoolA"
  "orNil (achivements exOverflow) = [letters 5]"
  by (simp_all add: exOverflow_def emptyResume_def orNil_def)

lemma distinct_by_length: "distinct (map length xs) \<Longrightarrow> distinct xs"
  by (simp add: distinct_map)

lemma length_specExpEntry_jobA: "length (specExpEntry 4 jobA) = 25"
  by (simp add: specExpEntry_def jobA_def DASH_SEP_def BULLET_SEP_def)

lemma length_schools:
  "length (specEduEntry schoolA) = 10"
  "length (specEduEntry schoolB) = 7"
  "length (specEduEntry schoolC) = 8"
  by (simp_all add: specEduEntry_def schoolA_def schoolB_def schoolC_def DASH_SEP_def SPACE_def)

theorem C4_overflow_into_achievements_witness:
  "achivements (preprocessResume exOverflow)
     = Some [letters 5, specExpEntry 4 jobA, specEduEntry schoolA]"
proof -
  have c: "join BULLET_SEP (filterBoolean
             (trim (role e @ DASH_SEP @ company e) # map trim (take b (description e))))
           = expEntry b e" for b e
    by (simp add: expEntry_def)
  have ce: "trim (degree ed @ DASH_SEP @ school ed @ SPACE @ trim (year ed)) = eduEntry ed"
    for ed
    by (simp add: eduEntry_def)
  have x: "expEntry 4 jobA = specExpEntry 4 jobA"
    and y: "eduEntry schoolA = specEduEntry schoolA"
    using C4_overflow_into_achievements [of exOverflow] jobA_clean schoolA_clean
    by (simp_all add: Let_def mode_exOverflow exOverflow_fields c ce)
  have t: "trim (letters 5) = letters 5"
    by (simp add: trim_clean clean_letters)
  have dist: "distinct [letters 5, specExpEntry 4 jobA, specEduEntry schoolA]"
    by (rule distinct_by_length) (simp add: length_specExpEntry_jobA length_schools)
  have ne: "filterBoolean [letters 5, specExpEntry 4 jobA, specEduEntry schoolA]
            = [letters 5, specExpEntry 4 jobA, specEduEntry schoolA]"
    using expEntry_neq_Nil [of 4 jobA] eduEntry_neq_Nil [of schoolA]
    by (simp add: filterBoolean_def x y letters_def)
  from C4_overflow_into_achievements [of exOverflow] show ?thesis
    by (simp add: Let_def mode_exOverflow exOverflow_fields c ce x y t
        arrayFromSet_distinct [OF dist] ne)
qed

section \<open>Truncation of bullets\<close>

lemma totalChars_exPadded: "totalChars exPadded = 8"
  by (simp add: totalChars_lengths exPadded_def emptyResume_def
      orNil_def orEmpty_def sepSum_def)

lemma totalChars_exLong: "totalChars exLong = 306"
  by (simp add: totalChars_lengths exLong_def emptyResume_def
      orNil_def orEmpty_def sepSum_def)

lemma trim_space_Cons: "trim (0x20 # s) = trim s"
  by (simp add: trim_def isWhiteSpace_def)

lemma trim_padded: "trim (0x20 # letters n) = letters n"
  by (simp add: trim_space_Cons trim_letters)

lemma truncateBullet_le: "0 < limit \<Longrightarrow> length (truncateBullet limit d) \<le> limit"
proof -
  assume "0 < limit"
  have "length (trim (take (limit - 1) d)) \<le> limit - 1"
    using length_trim_le [of "take (limit - 1) d"] by simp
  with \<open>0 < limit\<close> show ?thesis
    by (auto simp: truncateBullet_def ELLIPSIS_def)
qed

lemma clean_take:
  assumes "clean b" "Suc k < length b" "\<not> isWhiteSpace (b ! k)"
  shows "clean (take (Suc k) b)"
proof -
  from assms(1) have "b \<noteq> []" "\<not> isWhiteSpace (hd b)"
    by (auto simp: clean_def)
  moreover have "last (take (Suc k) b) = b ! k"
    using assms(2) by (simp add: take_Suc_conv_app_nth)
  moreover have "hd (take (Suc k) b) = hd b"
    using \<open>b \<noteq> []\<close> by (cases b) simp_all
  ultimately show ?thesis
    using assms(3) by (simp add: clean_def)
qed

text \<open>
  C6, as the claim states it, fails: a bullet of two characters, a space and a letter, does
  not exceed the limit of 220 and is not left unchanged; the result holds the letter alone.
\<close>

theorem C6_untrimmed_bullet_counterexample:
  "map_option truncateCharPerLine (layout (preprocessResume exPadded)) = Some 220
   \<and> map description (orNil (experience exPadded)) = [[0x20 # letters 1]]
   \<and> length (0x20 # letters 1) \<le> 220
   \<and> map description (orNil (experience (preprocessResume exPadded))) = [[letters 1]]
   \<and> map description (orNil (experience (preprocessResume exPadded)))
       \<noteq> map description (orNil (experience exPadded))"
proof -
  have m: "compactMode_of (totalChars exPadded) = False"
    by (simp add: totalChars_exPadded compactMode_of_def MEDIUM_CHARS_def)
  have i: "map description (orNil (experience exPadded)) = [[0x20 # letters 1]]"
    by (simp add: exPadded_def emptyResume_def orNil_def)
  have "experience (preprocessResume exPadded)
        = Some (map (trimExperience 4 220) (take 6 (orNil (experience exPadded))))"
    by (simp add: experience_pre m maxExperienceItems_of_def maxBulletsPerExp_of_def
        truncateCharPerLine_of_def)
  then have o: "map description (orNil (experience (preprocessResume exPadded)))
                = [[letters 1]]"
    by (simp add: exPadded_def emptyResume_def orNil_def trimExperience_def trim_padded
        truncateBullet_def)
  have l: "map_option truncateCharPerLine (layout (preprocessResume exPadded)) = Some 220"
    by (simp add: layout_pre m truncateCharPerLine_of_def)
  have "letters 1 \<noteq> 0x20 # letters 1"
    by (simp add: letters_def)
  with i o l show ?thesis
    by simp
qed

text \<open>
  C6, amended. Of every remaining experience entry (one of the first maxExperienceItems
  of the input) exactly the first maxBulletsPerExp bullets remain, and each of them is
  first trimmed of white space at both ends. A trimmed bullet longer than
  truncateCharPerLine is replaced by its first truncateCharPerLine - 1 characters, trimmed,
  and an ellipsis; a trimmed bullet within the limit is the result as it is. The result
  never exceeds the limit. So a bullet without white space at its ends is unchanged when it
  is within the limit, and when it is longer and the last character kept is not white
  space it becomes exactly truncateCharPerLine - 1 characters and an ellipsis (219 and an
  ellipsis in normal mode).
\<close>

theorem C6_bullets_trimmed_then_truncated:
  assumes "j < length (orNil (experience r))"
    and "j < (if compactMode_of (totalChars r) then 3 else 6)"
    and "i < length (description (orNil (experience r) ! j))"
    and "i < (if compactMode_of (totalChars r) then 2 else 4)"
  shows "(let limit = (if compactMode_of (totalChars r) then 120 else 220);
              maxE = (if compactMode_of (totalChars r) then 3 else 6);
              maxB = (if compactMode_of (totalChars r) then 2 else 4);
              outs = orNil (experience (preprocessResume r));
              b = description (orNil (experience r) ! j) ! i;
              t = trim b;
              out = description (outs ! j) ! i
          in map_option truncateCharPerLine (layout (preprocessResume r)) = Some limit
           \<and> map_option maxBulletsPerExp (layout (preprocessResume r)) = Some maxB
           \<and> length outs = min maxE (length (orNil (experience r)))
           \<and> length (description (outs ! j))
               = min maxB (length (description (orNil (experience r) ! j)))
           \<and> (limit < length t \<longrightarrow> out = trim (take (limit - 1) t) @ ELLIPSIS)
           \<and> (length t \<le> limit \<longrightarrow> out = t)
           \<and> length out \<le> limit
           \<and> (clean b \<and> length b \<le> limit \<longrightarrow> out = b)
           \<and> (clean b \<and> limit < length b \<and> \<not> isWhiteSpace (b ! (limit - 2))
                \<longrightarrow> out = take (limit - 1) b @ ELLIPSIS \<and> length out = limit))"
proof -
  define limit where "limit = truncateCharPerLine_of (compactMode_of (totalChars r))"
  define maxE where "maxE = maxExperienceItems_of (compactMode_of (totalChars r))"
  define maxB where "maxB = maxBulletsPerExp_of (compactMode_of (totalChars r))"
  define outs where "outs = orNil (experience (preprocessResume r))"
  define b where "b = description (orNil (experience r) ! j) ! i"
  define out where "out = description (outs ! j) ! i"
  have lim: "limit = (if compactMode_of (totalChars r) then 120 else 220)"
    by (simp add: limit_def truncateCharPerLine_of_def)
  have mE: "maxE = (if compactMode_of (totalChars r) then 3 else 6)"
    by (simp add: maxE_def maxExperienceItems_of_def)
  have mB: "maxB = (if compactMode_of (totalChars r) then 2 else 4)"
    by (simp add: maxB_def maxBulletsPerExp_of_def)
  from lim have pos: "0 < limit" "limit - 1 = Suc (limit - 2)" "Suc (limit - 2) < limit"
    by auto
  have outs: "outs = map (trimExperience maxB limit) (take maxE (orNil (experience r)))"
    by (simp add: outs_def experience_pre maxB_def limit_def maxE_def orNil_def)
  have a: "length outs = min maxE (length (orNil (experience r)))"
    by (simp add: outs min.commute)
  have j: "j < length (take maxE (orNil (experience r)))"
    using assms(1,2) by (simp add: mE)
  then have oj: "outs ! j = trimExperience maxB limit (orNil (experience r) ! j)"
    by (simp add: outs)
  have c: "length (description (outs ! j))
           = min maxB (length (description (orNil (experience r) ! j)))"
    by (simp add: oj trimExperience_def Let_def min.commute)
  have i: "i < length (take maxB (description (orNil (experience r) ! j)))"
    using assms(3,4) by (simp add: mB)
  then have out: "out = truncateBullet limit (trim b)"
    by (simp add: out_def oj trimExperience_def Let_def b_def)
  have 1: "map_option truncateCharPerLine (layout (preprocessResume r)) = Some limit"
    by (simp add: layout_pre limit_def)
  have 7: "map_option maxBulletsPerExp (layout (preprocessResume r)) = Some maxB"
    by (simp add: layout_pre maxB_def)
  have 2: "limit < length (trim b) \<longrightarrow> out = trim (take (limit - 1) (trim b)) @ ELLIPSIS"
    by (simp add: out truncateBullet_def)
  have 3: "length (trim b) \<le> limit \<longrightarrow> out = trim b"
    by (simp add: out truncateBullet_def)
  have 4: "length out \<le> limit"
    unfolding out using pos(1) by (rule truncateBullet_le)
  have 5: "clean b \<and> length b \<le> limit \<longrightarrow> out = b"
    by (auto simp: out truncateBullet_def trim_clean)
  have 6: "out = take (limit - 1) b @ ELLIPSIS \<and> length out = limit"
    if "clean b" "limit < length b" "\<not> isWhiteSpace (b ! (limit - 2))"
  proof -
    have "clean (take (Suc (limit - 2)) b)"
      using that pos by (intro clean_take) auto
    then have "trim (take (limit - 1) b) = take (limit - 1) b"
      using pos(2) by (simp add: trim_clean)
    then have o: "out = take (limit - 1) b @ ELLIPSIS"
      using that by (simp add: out truncateBullet_def trim_clean)
    then show ?thesis
      using that pos by (simp add: ELLIPSIS_def)
  qed
  from 1 7 a c 2 3 4 5 6 show ?thesis
    unfolding Let_def lim [symmetric] mE [symmetric] mB [symmetric] outs_def [symmetric]
      b_def [symmetric] out_def [symmetric]
    by blast
qed

theorem C6_bullets_trimmed_then_truncated_witness:
  "description (orNil (experience (preprocessResume exLong)) ! 0) ! 0 = letters 219 @ ELLIPSIS
   \<and> length (description (orNil (experience (preprocessResume exLong)) ! 0) ! 0) = 220
   \<and> length (orNil (experience (preprocessResume exLong))) = 1
   \<and> length (description (orNil (experience (preprocessResume exLong)) ! 0)) = 1"
proof -
  have m: "compactMode_of (totalChars exLong) = False"
    by (simp add: totalChars_exLong compactMode_of_def MEDIUM_CHARS_def)
  have e: "orNil (experience exLong)
           = [\<lparr> role = letters 1, company = letters 1, duration = letters 1,
                 description = [letters 300] \<rparr>]"
    by (simp add: exLong_def emptyResume_def orNil_def)
  have c: "clean (letters 300)" "\<not> isWhiteSpace (letters 300 ! 218)"
    "take 219 (letters 300) = letters 219"
    by (simp_all add: clean_letters) (simp_all add: letters_def not_ws_letter)
  have "(0::nat) < length (orNil (experience exLong))"
    "(0::nat) < (if compactMode_of (totalChars exLong) then 3 else 6)"
    "(0::nat) < length (description (orNil (experience exLong) ! 0))"
    "(0::nat) < (if compactMode_of (totalChars exLong) then 2 else 4)"
    by (simp_all add: m e)
  from C6_bullets_trimmed_then_truncated [OF this] show ?thesis
    by (simp add: Let_def m e c ELLIPSIS_def)
qed

section \<open>A second pass over the result\<close>

lemma unchanged_pre:
  "name (preprocessResume r) = name r"
  "title (preprocessResume r) = title r"
  "summary (preprocessResume r) = summary r"
  "volunteer (preprocessResume r) = volunteer r"
  by (simp_all add: preprocessResume_def Let_def split: prod.splits)

lemma skills_pre:
  "skills (preprocessResume r)
     = Some (take (if compactMode_of (totalChars r) then 12 else 30) (uniqStrings (skills r)))"
  "softSkills (preprocessResume r)
     = Some (take (if compactMode_of (totalChars r) then 6 else 12)
                  (uniqStrings (softSkills r)))"
  "languages (preprocessResume r)
     = Some (take (if compactMode_of (totalChars r) then 3 else 8) (uniqStrings (languages r)))"
  by (simp_all add: preprocessResume_def Let_def split: prod.splits)

lemma certifications_pre:
  "certifications (preprocessResume r)
     = Some (take 20 (map normCertification (orNil (certifications r))))"
  by (simp add: preprocessResume_def Let_def orNil_def split: prod.splits option.splits)

lemma totalChars_exSecond: "totalChars exSecond = 2200"
  by (simp add: totalChars_lengths exSecond_def emptyResume_def
      schoolA_def schoolB_def schoolC_def orNil_def orEmpty_def sepSum_def sum_list_replicate)

lemma mode_exSecond: "compactMode_of (totalChars exSecond) = False"
  by (simp add: totalChars_exSecond compactMode_of_def MEDIUM_CHARS_def)

lemma exSecond_fields:
  "name exSecond = None" "title exSecond = None" "summary exSecond = Some (letters 1907)"
  "experience exSecond
     = Some [\<lparr> role = letters 1, company = letters 1, duration = letters 1,
               description = [letters 221] \<rparr>]"
  "education exSecond = Some (replicate 6 schoolA @ [schoolB, schoolC])"
  "certifications exSecond = None" "achivements exSecond = None" "volunteer exSecond = None"
  "skills exSecond = None" "softSkills exSecond = None" "languages exSecond = None"
  by (simp_all add: exSecond_def emptyResume_def)

lemma uniqStrings_None: "uniqStrings None = []"
  by (simp add: uniqStrings_def orNil_def filterBoolean_def arrayFromSet_def)

lemma truncate_letters:
  "n < m \<Longrightarrow> 0 < n \<Longrightarrow> truncateBullet n (letters m) = letters (n - 1) @ ELLIPSIS"
  by (simp add: truncateBullet_def letters_def trim_letters [unfolded letters_def])

lemma eduEntry_schools:
  "eduEntry schoolA = specEduEntry schoolA"
  "eduEntry schoolB = specEduEntry schoolB"
  "eduEntry schoolC = specEduEntry schoolC"
  by (rule eduEntry_spec; simp add: schoolA_def schoolB_def schoolC_def clean_letters)+

text \<open>The first pass over \<open>exSecond\<close>: normal mode, two education entries overflow.\<close>

lemma first_exSecond:
  "experience (preprocessResume exSecond)
     = Some [\<lparr> role = letters 1, company = letters 1, duration = letters 1,
                description = [letters 219 @ ELLIPSIS] \<rparr>]"
  "education (preprocessResume exSecond) = Some (replicate 6 schoolA)"
  "achivements (preprocessResume exSecond) = Some [specEduEntry schoolB, specEduEntry schoolC]"
proof -
  show "experience (preprocessResume exSecond)
     = Some [\<lparr> role = letters 1, company = letters 1, duration = letters 1,
                description = [letters 219 @ ELLIPSIS] \<rparr>]"
    by (simp add: experience_pre mode_exSecond exSecond_fields orNil_def
        maxExperienceItems_of_def maxBulletsPerExp_of_def truncateCharPerLine_of_def
        trimExperience_def trim_letters truncate_letters)
  show "education (preprocessResume exSecond) = Some (replicate 6 schoolA)"
    by (simp add: education_pre mode_exSecond exSecond_fields orNil_def
        maxEducationItems_of_def)
  have dist: "distinct [specEduEntry schoolB, specEduEntry schoolC]"
    by (rule distinct_by_length) (simp add: length_schools)
  have ne: "specEduEntry schoolB \<noteq> []" "specEduEntry schoolC \<noteq> []"
    using length_schools by auto
  show "achivements (preprocessResume exSecond)
        = Some [specEduEntry schoolB, specEduEntry schoolC]"
    by (simp add: achivements_pre mode_exSecond exSecond_fields orNil_def
        maxExperienceItems_of_def maxEducationItems_of_def achCap_of_def eduEntry_schools
        arrayFromSet_distinct [OF dist] filterBoolean_def ne)
qed

lemma totalChars_first_exSecond: "totalChars (preprocessResume exSecond) = 2202"
  by (simp add: totalChars_lengths unchanged_pre skills_pre certifications_pre
      first_exSecond exSecond_fields uniqStrings_None orNil_def orEmpty_def sepSum_def
      sum_list_replicate schoolA_def length_schools ELLIPSIS_def)

lemma mode_first_exSecond: "compactMode_of (totalChars (preprocessResume exSecond)) = True"
  by (simp add: totalChars_first_exSecond compactMode_of_def MEDIUM_CHARS_def)

lemma trim_snoc_visible: "\<not> isWhiteSpace c \<Longrightarrow> trim (trim s @ [c]) = trim s @ [c]"
proof -
  assume c: "\<not> isWhiteSpace c"
  have "clean (trim s @ [c])"
    using trim_eq_Nil_or_clean [of s] c by (auto simp: clean_def)
  then show ?thesis
    by (rule trim_clean)
qed

text \<open>
  C7, as the claim states it, fails. The input has 2200 characters, so the first pass is in
  normal mode; it moves two education entries into the achievements, which adds separator
  characters, and cuts the bullet of 221 characters to 219 and an ellipsis. Its result has
  2202 characters, more than the input, so the second pass is in compact mode and cuts the
  already truncated bullet of 220 characters down to 120.
\<close>

theorem C7_second_pass_counterexample:
  "totalChars exSecond = 2200
   \<and> totalChars (preprocessResume exSecond) = 2202
   \<and> map_option truncateCharPerLine (layout (preprocessResume exSecond)) = Some 220
   \<and> map_option truncateCharPerLine (layout (preprocessResume (preprocessResume exSecond)))
       = Some 120
   \<and> map description (orNil (experience (preprocessResume exSecond)))
       = [[letters 219 @ ELLIPSIS]]
   \<and> map description (orNil (experience (preprocessResume (preprocessResume exSecond))))
       = [[letters 119 @ ELLIPSIS]]"
proof -
  have a: "map_option truncateCharPerLine (layout (preprocessResume exSecond)) = Some 220"
    by (simp add: layout_pre mode_exSecond truncateCharPerLine_of_def)
  have b: "map_option truncateCharPerLine
             (layout (preprocessResume (preprocessResume exSecond))) = Some 120"
    by (simp add: layout_pre mode_first_exSecond truncateCharPerLine_of_def)
  have c: "map description (orNil (experience (preprocessResume exSecond)))
           = [[letters 219 @ ELLIPSIS]]"
    by (simp add: first_exSecond orNil_def)
  have t: "trim (letters 219 @ ELLIPSIS) = letters 219 @ ELLIPSIS"
    using trim_snoc_visible [OF not_ws_ellipsis, of "letters 219"]
    by (simp add: trim_letters ELLIPSIS_def)
  have u: "truncateBullet 120 (letters 219 @ ELLIPSIS) = letters 119 @ ELLIPSIS"
    by (simp add: truncateBullet_def ELLIPSIS_def letters_def
        trim_letters [unfolded letters_def])
  have d: "map description (orNil (experience (preprocessResume (preprocessResume exSecond))))
           = [[letters 119 @ ELLIPSIS]]"
    by (simp add: experience_pre [of "preprocessResume exSecond"] mode_first_exSecond
        first_exSecond orNil_def maxExperienceItems_of_def maxBulletsPerExp_of_def
        truncateCharPerLine_of_def trimExperience_def t u)
  from a b c d show ?thesis
    by (simp add: totalChars_exSecond totalChars_first_exSecond)
qed

text \<open>What the first pass leaves: every string trimmed, the achievements non-empty and distinct.\<close>

lemma clean_join:
  "xs \<noteq> [] \<Longrightarrow> (\<And>x. x \<in> set xs \<Longrightarrow> clean x) \<Longrightarrow> clean (join sep xs)"
proof (induction sep xs rule: join.induct)
  case (1 sep)
  then show ?case by simp
next
  case (2 sep x)
  then show ?case by simp
next
  case (3 sep x y ys)
  have "clean x"
    by (simp add: 3)
  moreover have "clean (join sep (y # ys))"
    by (rule "3.IH") (simp_all add: 3)
  ultimately show ?case
    by (simp add: clean_append)
qed

lemma trim_expEntry: "trim (expEntry b e) = expEntry b e"
proof -
  let ?t = "trim (role e @ DASH_SEP @ company e)"
  let ?bs = "filterBoolean (map trim (take b (description e)))"
  have t: "clean ?t"
    using trim_eq_Nil_or_clean [of "role e @ DASH_SEP @ company e"] title_neq_Nil by auto
  have bs: "clean x" if "x \<in> set ?bs" for x
    using that trim_eq_Nil_or_clean by (auto simp: filterBoolean_def)
  have e: "expEntry b e = join BULLET_SEP (?t # ?bs)"
    using title_neq_Nil by (simp add: expEntry_def Let_def filterBoolean_def)
  have "clean (join BULLET_SEP (?t # ?bs))"
    using t bs by (intro clean_join) auto
  then show ?thesis
    unfolding e by (rule trim_clean)
qed

lemma trim_eduEntry: "trim (eduEntry ed) = eduEntry ed"
  by (simp add: eduEntry_def)

lemma achivements_elems:
  assumes "x \<in> set (orNil (achivements (preprocessResume r)))"
  shows "trim x = x \<and> x \<noteq> []"
proof -
  from assms have "x \<in> set (filterBoolean (arrayFromSet (map trim (orNil (achivements r))
                @ map (expEntry (maxBulletsPerExp_of (compactMode_of (totalChars r))))
                      (drop (maxExperienceItems_of (compactMode_of (totalChars r)))
                            (orNil (experience r)))
                @ map eduEntry (drop (maxEducationItems_of (compactMode_of (totalChars r)))
                                     (orNil (education r))))))"
    by (auto simp: achivements_pre orNil_def dest: in_set_takeD)
  then show ?thesis
    by (auto simp: filterBoolean_def set_arrayFromSet trim_expEntry trim_eduEntry)
qed

lemma achivements_distinct: "distinct (orNil (achivements (preprocessResume r)))"
  by (simp add: achivements_pre orNil_def filterBoolean_def distinct_arrayFromSet)

lemma achivements_length:
  "length (orNil (achivements (preprocessResume r))) \<le> achCap_of (compactMode_of (totalChars r))"
  by (simp add: achivements_pre orNil_def)

lemma truncateBullet_fixed:
  assumes "0 < l1" "l1 \<le> l2"
  shows "truncateBullet l2 (trim (truncateBullet l1 (trim b))) = truncateBullet l1 (trim b)"
proof -
  let ?x = "truncateBullet l1 (trim b)"
  have "trim ?x = ?x"
    using trim_snoc_visible [OF not_ws_ellipsis]
    by (simp add: truncateBullet_def ELLIPSIS_def)
  moreover have "length ?x \<le> l2"
    using truncateBullet_le [OF assms(1), of "trim b"] assms(2) by simp
  ultimately show ?thesis
    by (simp add: truncateBullet_def)
qed

lemma trimExperience_fixed:
  assumes "0 < l1" "l1 \<le> l2" "b1 \<le> b2"
  shows "trimExperience b2 l2 (trimExperience b1 l1 e) = trimExperience b1 l1 e"
  using assms by (simp add: trimExperience_def Let_def truncateBullet_fixed)

lemma experience_length:
  "length (orNil (experience (preprocessResume r)))
     \<le> maxExperienceItems_of (compactMode_of (totalChars r))"
  by (simp add: experience_pre orNil_def)

lemma education_length:
  "length (orNil (education (preprocessResume r)))
     \<le> maxEducationItems_of (compactMode_of (totalChars r))"
  by (simp add: education_pre orNil_def)

text \<open>Leaving compact mode, or staying in the same mode, tightens no cap.\<close>

lemma caps_mono:
  assumes "c2 \<longrightarrow> c1"
  shows "maxExperienceItems_of c1 \<le> maxExperienceItems_of c2"
    "maxEducationItems_of c1 \<le> maxEducationItems_of c2"
    "maxBulletsPerExp_of c1 \<le> maxBulletsPerExp_of c2"
    "truncateCharPerLine_of c1 \<le> truncateCharPerLine_of c2"
    "achCap_of c1 \<le> achCap_of c2"
    "0 < truncateCharPerLine_of c1"
  using assms
  by (auto simp: maxExperienceItems_of_def maxEducationItems_of_def maxBulletsPerExp_of_def
      truncateCharPerLine_of_def achCap_of_def)

lemma second_pass_stable:
  assumes "compactMode_of (totalChars (preprocessResume r)) \<longrightarrow> compactMode_of (totalChars r)"
  shows "experience (preprocessResume (preprocessResume r)) = experience (preprocessResume r)"
    and "education (preprocessResume (preprocessResume r)) = education (preprocessResume r)"
    and "achivements (preprocessResume (preprocessResume r)) = achivements (preprocessResume r)"
proof -
  let ?p = "preprocessResume r"
  let ?c1 = "compactMode_of (totalChars r)"
  let ?c2 = "compactMode_of (totalChars ?p)"
  note m = caps_mono [OF assms]
  have e: "take (maxExperienceItems_of ?c2) (orNil (experience ?p)) = orNil (experience ?p)"
    using experience_length [of r] m(1) by simp
  have "map (trimExperience (maxBulletsPerExp_of ?c2) (truncateCharPerLine_of ?c2))
          (orNil (experience ?p)) = orNil (experience ?p)"
    using m by (simp add: experience_pre [of r] orNil_def trimExperience_fixed)
  with e have "experience (preprocessResume ?p) = Some (orNil (experience ?p))"
    by (simp add: experience_pre [of ?p])
  then show "experience (preprocessResume ?p) = experience ?p"
    by (simp add: experience_pre [of r] orNil_def)
  have "take (maxEducationItems_of ?c2) (orNil (education ?p)) = orNil (education ?p)"
    using education_length [of r] m(2) by simp
  then have "education (preprocessResume ?p) = Some (orNil (education ?p))"
    by (simp add: education_pre [of ?p])
  then show "education (preprocessResume ?p) = education ?p"
    by (simp add: education_pre [of r] orNil_def)
  have de: "drop (maxExperienceItems_of ?c2) (orNil (experience ?p)) = []"
    using experience_length [of r] m(1) by simp
  have dd: "drop (maxEducationItems_of ?c2) (orNil (education ?p)) = []"
    using education_length [of r] m(2) by simp
  let ?a = "orNil (achivements ?p)"
  have t: "map trim ?a = ?a"
    using achivements_elems [of _ r] by (simp add: map_idI)
  have f: "filterBoolean ?a = ?a"
    using achivements_elems [of _ r] by (simp add: filterBoolean_def)
  have "achivements (preprocessResume ?p) = Some (take (achCap_of ?c2) ?a)"
    by (simp add: achivements_pre [of ?p] de dd t f
        arrayFromSet_distinct [OF achivements_distinct])
  moreover have "take (achCap_of ?c2) ?a = ?a"
    using achivements_length [of r] m(5) by simp
  ultimately show "achivements (preprocessResume ?p) = achivements ?p"
    by (simp add: achivements_pre [of r] orNil_def)
qed

lemma second_pass_length:
  "length (orNil (achivements (preprocessResume (preprocessResume r))))
     \<le> achCap_of (compactMode_of (totalChars r))"
proof (cases "compactMode_of (totalChars (preprocessResume r))")
  case True
  then have "length (orNil (achivements (preprocessResume (preprocessResume r)))) \<le> 6"
    using achivements_length [of "preprocessResume r"] by (simp add: achCap_of_def)
  then show ?thesis
    by (simp add: achCap_of_def)
next
  case False
  then have "achivements (preprocessResume (preprocessResume r))
             = achivements (preprocessResume r)"
    by (intro second_pass_stable) simp
  then show ?thesis
    using achivements_length [of r] by simp
qed

lemma totalChars_exCompact: "totalChars exCompact = 2507"
  by (simp add: totalChars_lengths exCompact_def emptyResume_def
      orNil_def orEmpty_def sepSum_def)

text \<open>
  C7, amended. A second pass over the result of a first pass never leaves more achievements
  than the first pass's cap (6 if the first pass was compact, 12 otherwise). When the
  second pass is not in a stricter mode than the first (it is not compact, or the first
  was compact already), it returns the experience entries with their bullets, the
  education entries and the achievements of the first pass unchanged.
\<close>

theorem C7_second_pass:
  "(let p1 = preprocessResume r; p2 = preprocessResume p1;
        c1 = compactMode_of (totalChars r); c2 = compactMode_of (totalChars p1)
    in map_option compactMode (layout p1) = Some c1
     \<and> map_option compactMode (layout p2) = Some c2
     \<and> length (orNil (achivements p2)) \<le> (if c1 then 6 else 12)
     \<and> ((c2 \<longrightarrow> c1) \<longrightarrow> experience p2 = experience p1 \<and> education p2 = education p1
            \<and> achivements p2 = achivements p1))"
  using second_pass_length [of r] second_pass_stable [of r]
  by (simp add: Let_def layout_pre achCap_of_def)

theorem C7_second_pass_witness:
  "map_option compactMode (layout (preprocessResume exCompact)) = Some True
   \<and> map description (orNil (experience (preprocessResume (preprocessResume exCompact))))
      = [[letters 119 @ ELLIPSIS]]"
proof -
  have m: "compactMode_of (totalChars exCompact) = True"
    by (simp add: totalChars_exCompact compactMode_of_def MEDIUM_CHARS_def)
  have "experience (preprocessResume exCompact)
        = Some (map (trimExperience 2 120) (take 3 (orNil (experience exCompact))))"
    by (simp add: experience_pre m maxExperienceItems_of_def maxBulletsPerExp_of_def
        truncateCharPerLine_of_def)
  then have e: "map description (orNil (experience (preprocessResume exCompact)))
        = [[letters 119 @ ELLIPSIS]]"
    by (simp add: exCompact_def emptyResume_def orNil_def trimExperience_def trim_letters
        truncate_letters)
  from C7_second_pass [of exCompact] show ?thesis
    by (simp add: Let_def m e)
qed

section \<open>The input object\<close>

text \<open>
  C9. The call leaves every object that was in the store before it as it was, the input
  object among them: the store after the call is the store before it with one new object
  at its end, and the new object, which the call returns, is the processed copy.
\<close>

theorem C9_input_not_mutated:
  "preprocessResume_heap h input
     = (h @ [preprocessResume (case input of None \<Rightarrow> emptyResume | Some a \<Rightarrow> h ! a)],
        length h)
   \<and> (\<forall>i < length h. fst (preprocessResume_heap h input) ! i = h ! i)"
proof -
  have "preprocessResume_heap h input
     = (h @ [preprocessResume (case input of None \<Rightarrow> emptyResume | Some a \<Rightarrow> h ! a)],
        length h)"
    by (simp add: preprocessResume_heap_def preprocessResume_def Let_def split: prod.splits)
  then show ?thesis
    by (simp add: nth_append)
qed

theorem C9_input_not_mutated_witness:
  "fst (preprocessResume_heap [exOverflow] (Some 0)) ! 0 = exOverflow
   \<and> snd (preprocessResume_heap [exOverflow] (Some 0)) = 1"
  using C9_input_not_mutated [of "[exOverflow]" "Some 0"] by simp

section \<open>Untyped input\<close>

lemma ascii_keys:
  "ascii ''role'' \<noteq> ascii ''company''" "ascii ''role'' \<noteq> ascii ''duration''"
  "ascii ''role'' \<noteq> ascii ''description''" "ascii ''company'' \<noteq> ascii ''duration''"
  "ascii ''company'' \<noteq> ascii ''description''"
  "ascii ''duration'' \<noteq> ascii ''description''"
  "ascii ''name'' \<noteq> ascii ''experience''"
  by (simp_all add: ascii_def)

lemma getField_jsonOfExperience:
  "getField (jsonOfExperience e) (ascii ''role'') = Inr (JStr (role e))"
  "getField (jsonOfExperience e) (ascii ''company'') = Inr (JStr (company e))"
  "getField (jsonOfExperience e) (ascii ''duration'') = Inr (JStr (duration e))"
  "getField (jsonOfExperience e) (ascii ''description'')
     = Inr (JArr (map JStr (description e)))"
  using ascii_keys by (simp_all add: jsonOfExperience_def)

lemma expText_dyn_typed:
  "expText_dyn (jsonOfExperience e)
     = Inr (role e @ SPACE @ company e @ SPACE @ duration e @ SPACE
            @ join SPACE (description e))"
  by (simp add: expText_dyn_def getField_jsonOfExperience thenE_def jsOr_def callJoin_def
      elemStr_def o_def)

lemma mapE_typed:
  "mapE expText_dyn (map jsonOfExperience exps)
     = Inr (map (\<lambda>e. role e @ SPACE @ company e @ SPACE @ duration e @ SPACE
                      @ join SPACE (description e)) exps)"
  by (induction exps) (simp_all add: expText_dyn_typed thenE_def)

text \<open>On a well-typed experience list the untyped function is the typed one and throws nothing.\<close>

lemma joinExpText_dyn_typed:
  "joinExpText_dyn (JArr (map jsonOfExperience exps)) = Inr (joinExpText (Some exps))"
  by (simp add: joinExpText_dyn_def jsOr_def mapE_typed thenE_def joinExpText_def orNil_def)

lemma joinExpText_dyn_absent:
  "joinExpText_dyn JUndefined = Inr (joinExpText None)"
  "joinExpText_dyn JNull = Inr (joinExpText None)"
  by (simp_all add: joinExpText_dyn_def jsOr_def thenE_def joinExpText_def orNil_def)

lemma expText_dyn_no_description:
  "expText_dyn (JObj [(ascii ''role'', JStr a), (ascii ''company'', JStr b),
                      (ascii ''duration'', JStr c)])
     = Inr (a @ SPACE @ b @ SPACE @ c @ SPACE)"
  "expText_dyn (JObj [(ascii ''role'', JStr a), (ascii ''company'', JStr b),
                      (ascii ''duration'', JStr c), (ascii ''description'', JNull)])
     = Inr (a @ SPACE @ b @ SPACE @ c @ SPACE)"
  using ascii_keys
  by (simp_all add: expText_dyn_def thenE_def jsOr_def callJoin_def)

text \<open>
  C5. The function does throw on a malformed nested shape: on an experience entry whose
  description is a non-empty string, \<open>joinExpText\<close> calls \<open>join\<close> on the string,
  which is a \<open>TypeError\<close>, at line 212, before the guard
  \<open>Array.isArray(e.description)\<close> of line 304, which would make the description
  an empty list, is reached.
\<close>

theorem C5_description_string_throws:
  "expLen_dyn exMalformed = Inl TypeError"
proof -
  have "getField exMalformed (ascii ''experience'')
        = Inr (JArr [JObj [(ascii ''role'', JStr (letters 1)),
                           (ascii ''company'', JStr (letters 1)),
                           (ascii ''duration'', JStr (letters 1)),
                           (ascii ''description'', JStr (letters 9))]])"
    using ascii_keys by (simp add: exMalformed_def)
  moreover have "expText_dyn (JObj [(ascii ''role'', JStr (letters 1)),
                                    (ascii ''company'', JStr (letters 1)),
                                    (ascii ''duration'', JStr (letters 1)),
                                    (ascii ''description'', JStr (letters 9))])
                 = Inl TypeError"
    using ascii_keys
    by (simp add: expText_dyn_def thenE_def jsOr_def callJoin_def letters_def)
  ultimately show ?thesis
    by (simp add: expLen_dyn_def jsOr_def exMalformed_def thenE_def joinExpText_dyn_def)
qed

section \<open>The density formula\<close>








end
